theory Spec2Isabelle
  imports Complex_Main "HOL-Library.Char_ord" "HOL-Library.List_Lexorder"
begin

section \<open>Strings as Python sees them\<close>

text \<open>
  The server in \<^verbatim>\<open>backend/app/main.py\<close> works on Python \<^verbatim>\<open>str\<close> values. A string is
  modelled as a list of 8-bit characters, every character standing for the code point of
  the same number (code points 0 to 255). On that range \<^verbatim>\<open>str.lower()\<close> adds 32 to the
  letters A-Z and to the capital letters 192-214 and 216-222, and leaves everything else
  alone; the regular expression class \<^verbatim>\<open>\w\<close> holds the alphanumeric code points and the
  underscore. Strings with code points above 255 are outside the model. There
  \<^verbatim>\<open>str.lower()\<close> can change the length of a string and its word boundaries (the
  lower case of U+0130 is two code points), so no statement below concludes from the
  lower-cased query to the query as it was typed.
\<close>

definition py_lower_char :: "char \<Rightarrow> char" where
  "py_lower_char c =
     (let n = (of_char c :: nat)
      in if (65 \<le> n \<and> n \<le> 90) \<or> (192 \<le> n \<and> n \<le> 214) \<or> (216 \<le> n \<and> n \<le> 222)
         then char_of (n + 32) else c)"

definition py_lower :: "string \<Rightarrow> string" where
  "py_lower s = map py_lower_char s"

text \<open>\<^verbatim>\<open>s.startswith(p)\<close>.\<close>

fun startswith :: "string \<Rightarrow> string \<Rightarrow> bool" where
  "startswith s [] = True"
| "startswith [] (c # p) = False"
| "startswith (a # s) (c # p) = (a = c \<and> startswith s p)"

text \<open>\<^verbatim>\<open>p in s\<close> for two strings: \<open>p\<close> occurs in \<open>s\<close> as a contiguous run.\<close>

fun py_in :: "string \<Rightarrow> string \<Rightarrow> bool" where
  "py_in p [] = (p = [])"
| "py_in p (c # s) = (startswith (c # s) p \<or> py_in p s)"

text \<open>\<^verbatim>\<open>any(w in s for w in ws)\<close>.\<close>

definition any_in :: "string list \<Rightarrow> string \<Rightarrow> bool" where
  "any_in ws s = list_ex (\<lambda>w. py_in w s) ws"

section \<open>The regular expression for commit hashes\<close>

text \<open>
  \<^verbatim>\<open>r'\b[a-fA-F0-9]{6,40}\b'\<close>: a word boundary, 6 to 40 hexadecimal digits (greedy:
  the longest count is tried first), a word boundary. A word boundary stands at a
  position where exactly one of the two neighbouring characters is a \<^verbatim>\<open>\w\<close>
  character; outside the string there is none.
\<close>

definition is_hex_char :: "char \<Rightarrow> bool" where
  "is_hex_char c =
     (let n = (of_char c :: nat)
      in (48 \<le> n \<and> n \<le> 57) \<or> (65 \<le> n \<and> n \<le> 70) \<or> (97 \<le> n \<and> n \<le> 102))"

definition is_word_char :: "char \<Rightarrow> bool" where
  "is_word_char c =
     (let n = (of_char c :: nat)
      in (48 \<le> n \<and> n \<le> 57) \<or> (65 \<le> n \<and> n \<le> 90) \<or> n = 95 \<or> (97 \<le> n \<and> n \<le> 122)
         \<or> n = 170 \<or> n = 178 \<or> n = 179 \<or> n = 181 \<or> n = 185 \<or> n = 186
         \<or> (188 \<le> n \<and> n \<le> 190) \<or> (192 \<le> n \<and> n \<le> 214) \<or> (216 \<le> n \<and> n \<le> 246)
         \<or> 248 \<le> n)"

definition word_boundary :: "string \<Rightarrow> nat \<Rightarrow> bool" where
  "word_boundary s i =
     ((0 < i \<and> i \<le> length s \<and> is_word_char (s ! (i - 1)))
      \<noteq> (i < length s \<and> is_word_char (s ! i)))"

text \<open>The length of the match that starts at position \<open>i\<close>, if there is one.\<close>

definition hex_match_at :: "string \<Rightarrow> nat \<Rightarrow> nat option" where
  "hex_match_at s i =
     find (\<lambda>n. i + n \<le> length s \<and> list_all is_hex_char (take n (drop i s))
                \<and> word_boundary s i \<and> word_boundary s (i + n))
          (rev [6..<41])"

text \<open>\<^verbatim>\<open>re.search(pattern, s)\<close> as a truth value: some position has a match.\<close>

definition hex_search :: "string \<Rightarrow> bool" where
  "hex_search s = list_ex (\<lambda>i. hex_match_at s i \<noteq> None) [0..<Suc (length s)]"

text \<open>
  \<^verbatim>\<open>re.findall(pattern, s)\<close>: the matches from left to right, the scan going on where
  the last match ended.
\<close>

function hex_findall_from :: "string \<Rightarrow> nat \<Rightarrow> string list" where
  "hex_findall_from s i =
     (if length s < i then []
      else case hex_match_at s i of
             None \<Rightarrow> hex_findall_from s (Suc i)
           | Some n \<Rightarrow> take n (drop i s) # hex_findall_from s (i + n))"
  by pat_completeness auto
termination
proof (relation "measure (\<lambda>(s, i). Suc (length s) - i)")
  show "wf (measure (\<lambda>(s, i). Suc (length s) - i))" by simp
next
  fix s :: string and i :: nat
  assume "\<not> length s < i"
  then show "((s, Suc i), (s, i)) \<in> measure (\<lambda>(s, i). Suc (length s) - i)" by simp
next
  fix s :: string and i n :: nat
  assume le: "\<not> length s < i" and m: "hex_match_at s i = Some n"
  from m obtain k where "k < length (rev [6..<41])" and "n = rev [6..<41] ! k"
    unfolding hex_match_at_def find_Some_iff by blast
  then have "n \<in> set (rev [6..<41])" by (simp only: nth_mem)
  then have "n \<in> {6..<41}" by (simp only: set_rev set_upt)
  then have "0 < n" by simp
  with le show "((s, i + n), (s, i)) \<in> measure (\<lambda>(s, i). Suc (length s) - i)" by simp
qed

declare hex_findall_from.simps [simp del]

definition hex_findall :: "string \<Rightarrow> string list" where
  "hex_findall s = hex_findall_from s 0"

section \<open>The query classifier\<close>

text \<open>
  \<^verbatim>\<open>classify_query_type(query_lower)\<close>: an if/elif chain over keyword lists. Its caller
  \<^verbatim>\<open>generate_intelligent_answer\<close> passes \<^verbatim>\<open>query.lower()\<close>.
\<close>

definition classify_query_type :: "string \<Rightarrow> string" where
  "classify_query_type query_lower =
     (if any_in [''latest commit'', ''most recent commit'', ''last commit'',
                 ''newest commit'', ''recent commit'', ''show the latest''] query_lower
      then ''latest_commit''
      else if any_in [''summarize'', ''summary'', ''overview'', ''describe repo'',
                      ''tell me about'', ''what is this repo''] query_lower
      then ''repository_summary''
      else if any_in [''show all commits'', ''list commits'', ''all the commits'',
                      ''every commit'', ''commit list''] query_lower
      then ''list_commits''
      else if any_in [''commit''] query_lower
              \<and> any_in [''show'', ''explain'', ''what'', ''analyze'', ''details''] query_lower
      then (if hex_search query_lower then ''specific_commit'' else ''general_commit_query'')
      else if any_in [''recent changes'', ''what changed recently'', ''latest changes''] query_lower
      then ''recent_changes''
      else if any_in [''compare'', ''difference'', ''changed from'', ''vs'', ''versus''] query_lower
      then ''commit_comparison''
      else if any_in [''timeline'', ''history'', ''chronological'', ''when'', ''evolution''] query_lower
      then ''timeline''
      else if any_in [''who'', ''author'', ''contributor'', ''developer''] query_lower
      then ''author_analysis''
      else ''general'')"

text \<open>\<^verbatim>\<open>extract_commit_hash(query)\<close>: the first match, or the empty string.\<close>

definition extract_commit_hash :: "string \<Rightarrow> string" where
  "extract_commit_hash query = (case hex_findall query of [] \<Rightarrow> [] | m # _ \<Rightarrow> m)"

section \<open>Commit records and the server's state\<close>

text \<open>
  A commit event is a Python dictionary; the record has one field for every key the code
  reads, \<open>None\<close> standing for a key that is missing (what \<^verbatim>\<open>event.get(key, default)\<close>
  answers with its default).
\<close>

record event =
  commit_hash :: "string option"
  repository :: "string option"
  message :: "string option"
  author :: "string option"
  timestamp :: "string option"
  files_changed :: "string list option"
  primary_branch :: "string option"
  all_branches :: "string list option"
  merge_commit :: "bool option"
  event_type :: "string option"
  branch_context :: "string option"

text \<open>\<^verbatim>\<open>d.get(key, default)\<close>, applied to the field of the key.\<close>

definition dict_get :: "'a option \<Rightarrow> 'a \<Rightarrow> 'a" where
  "dict_get field dflt = (case field of None \<Rightarrow> dflt | Some v \<Rightarrow> v)"

text \<open>A dictionary is true in a condition when it has a key.\<close>

definition dict_nonempty :: "event \<Rightarrow> bool" where
  "dict_nonempty e =
     (commit_hash e \<noteq> None \<or> repository e \<noteq> None \<or> message e \<noteq> None \<or> author e \<noteq> None
      \<or> timestamp e \<noteq> None \<or> files_changed e \<noteq> None \<or> primary_branch e \<noteq> None
      \<or> all_branches e \<noteq> None \<or> merge_commit e \<noteq> None \<or> event_type e \<noteq> None
      \<or> branch_context e \<noteq> None)"

text \<open>
  A filter clause \<^verbatim>\<open>{"key": k, "match": {"value": v}}\<close> and the two filter objects the
  code hands to the index, \<^verbatim>\<open>{"must": [...]}\<close> and \<^verbatim>\<open>{"should": [...]}\<close>.
\<close>

record condition =
  cond_key :: string
  match_val :: string

datatype search_filter = Must "condition list" | Should "condition list"

text \<open>
  The vector index (Qdrant) is an external service. The model keeps the payloads it
  stores, whether its calls raise, and what a similarity search answers for a query
  text, a filter and a limit; the last is a parameter, since the ranking is the
  service's own.
\<close>

record vector_index =
  points :: "event list"
  failing :: bool
  nearest :: "string \<Rightarrow> search_filter option \<Rightarrow> int \<Rightarrow> event list"

record repo_entry =
  path :: string
  first_indexed :: string
  last_updated :: string
  commit_count :: int
  selected :: bool

text \<open>
  The module's globals: \<^verbatim>\<open>git_events\<close>, \<^verbatim>\<open>qdrant_client\<close> (\<open>None\<close> when the index was
  not reached at startup), \<^verbatim>\<open>embedding_model\<close> (loaded or not) and
  \<^verbatim>\<open>indexed_repositories\<close>.
\<close>

record server =
  git_events :: "event list"
  qdrant_client :: "vector_index option"
  embedding_model :: bool
  indexed_repositories :: "string \<rightharpoonup> repo_entry"

datatype py_error = NameError string | TypeError string | IndexError string

datatype http_error = HTTPException nat py_error

section \<open>List operations of Python\<close>

text \<open>\<^verbatim>\<open>xs[:n]\<close>: a negative \<open>n\<close> counts from the end.\<close>

definition py_slice_to :: "int \<Rightarrow> 'a list \<Rightarrow> 'a list" where
  "py_slice_to n xs = (if 0 \<le> n then take (nat n) xs else take (length xs - nat (- n)) xs)"

text \<open>
  \<^verbatim>\<open>sorted(xs, key=k, reverse=True)\<close>: a stable sort, largest key first, elements of
  equal key in their order in \<open>xs\<close>.
\<close>

definition py_sorted_desc :: "('a \<Rightarrow> 'k::linorder) \<Rightarrow> 'a list \<Rightarrow> 'a list" where
  "py_sorted_desc k xs = rev (sort_key k (rev xs))"

definition timestamp_key :: "event \<Rightarrow> string" where
  "timestamp_key x = dict_get (timestamp x) []"

section \<open>Retrieval\<close>

text \<open>A value given for \<^verbatim>\<open>repository\<close> counts when it is not the empty string.\<close>

definition truthy :: "string option \<Rightarrow> bool" where
  "truthy r = (case r of None \<Rightarrow> False | Some v \<Rightarrow> v \<noteq> [])"

text \<open>The branch names of a filter's \<^verbatim>\<open>should\<close> clauses.\<close>

definition target_branches :: "condition list \<Rightarrow> string list" where
  "target_branches conds = map match_val conds"

text \<open>
  \<^verbatim>\<open>e.get('primary_branch') in target_branches or
  any(branch in target_branches for branch in e.get('all_branches', []))\<close>
\<close>

definition on_branches :: "string list \<Rightarrow> event \<Rightarrow> bool" where
  "on_branches tb e =
     ((case primary_branch e of None \<Rightarrow> False | Some b \<Rightarrow> List.member tb b)
      \<or> list_ex (\<lambda>branch. List.member tb branch) (dict_get (all_branches e) []))"

definition apply_branch_filter :: "condition list option \<Rightarrow> event list \<Rightarrow> event list" where
  "apply_branch_filter branch_filter evs =
     (case branch_filter of
        None \<Rightarrow> evs
      | Some conds \<Rightarrow> filter (on_branches (target_branches conds)) evs)"

text \<open>The loop that keeps the first event of every commit hash.\<close>

fun unique_events :: "string set \<Rightarrow> event list \<Rightarrow> event list" where
  "unique_events seen [] = []"
| "unique_events seen (e # es) =
     (let h = dict_get (commit_hash e) []
      in if h \<in> seen then unique_events seen es else e # unique_events (insert h seen) es)"

text \<open>
  \<^verbatim>\<open>search_similar\<close>. Without the index or the embedding model it scans \<^verbatim>\<open>git_events\<close>;
  otherwise it asks the index, and an exception of the index ends in
  \<^verbatim>\<open>except Exception: return []\<close>.
\<close>

definition search_similar ::
  "server \<Rightarrow> string \<Rightarrow> int \<Rightarrow> string option \<Rightarrow> condition list option \<Rightarrow> bool \<Rightarrow> event list" where
  "search_similar st query limit repo branch_filter temporal_priority =
     (let in_memory =
            (let filtered_events = git_events st;
                 filtered_events =
                   (if truthy repo then filter (\<lambda>e. repository e = repo) filtered_events
                    else filtered_events);
                 filtered_events = apply_branch_filter branch_filter filtered_events;
                 filtered_events =
                   (if temporal_priority then py_sorted_desc timestamp_key filtered_events
                    else filtered_events)
             in py_slice_to limit filtered_events)
      in case qdrant_client st of
           None \<Rightarrow> in_memory
         | Some ix \<Rightarrow>
             if \<not> embedding_model st then in_memory
             else if failing ix then []
             else
               (let filter_conditions =
                      (if truthy repo
                       then [\<lparr>cond_key = ''repository'', match_val = dict_get repo []\<rparr>] else [])
                      @ (case branch_filter of None \<Rightarrow> [] | Some conds \<Rightarrow> conds);
                    search_filter =
                      (if filter_conditions = [] then None
                       else if 1 < length filter_conditions then Some (Should filter_conditions)
                       else Some (Must filter_conditions));
                    events = nearest ix query search_filter limit;
                    events =
                      (if temporal_priority then py_sorted_desc timestamp_key events else events)
                in unique_events {} events))"

text \<open>
  \<^verbatim>\<open>search_similar_with_temporal_priority\<close>. The branch for
  \<^verbatim>\<open>temporal_priority=False\<close> calls \<^verbatim>\<open>search_with_filters\<close>, a name the program never
  defines: the call raises \<^verbatim>\<open>NameError\<close>.
\<close>

definition search_similar_with_temporal_priority ::
  "server \<Rightarrow> string \<Rightarrow> int \<Rightarrow> string option \<Rightarrow> bool \<Rightarrow> condition list option
     \<Rightarrow> py_error + event list" where
  "search_similar_with_temporal_priority st query limit repo temporal_priority branch_filter =
     (if temporal_priority then
        (if qdrant_client st = None \<or> \<not> embedding_model st then
           (let filtered_events = git_events st;
                filtered_events =
                  (if truthy repo
                   then filter (\<lambda>e. py_in (dict_get repo []) (dict_get (repository e) []))
                          (git_events st)
                   else filtered_events);
                filtered_events = apply_branch_filter branch_filter filtered_events;
                sorted_events = py_sorted_desc timestamp_key filtered_events
            in Inr (py_slice_to limit sorted_events))
         else
           (let semantic_results = search_similar st query (limit * 2) repo None False;
                semantic_results = apply_branch_filter branch_filter semantic_results;
                temporal_results = py_sorted_desc timestamp_key semantic_results
            in Inr (py_slice_to limit temporal_results)))
      else Inl (NameError ''search_with_filters''))"

section \<open>Answer synthesis\<close>

text \<open>
  The formatters build long reports: f-string layouts, ISO date parsing and calls of the
  language model. A report is kept as a term that names the formatter and the data it
  lays out, and the layout itself (\<open>render\<close>) and the language model's answer
  (\<open>query_enhanced_llm\<close>) are parameters. What a formatter decides before it lays
  out (the guard on an empty list, the commit it picks) is modelled.
\<close>

datatype report =
    DetailedCommitAnalysis event "event list"
  | RecentChanges "event list"
  | RepositorySummary "event list" string
  | CommitList "event list" string
  | Timeline "event list"
  | AuthorActivity "event list"
  | FallbackListing "event list"

record services =
  render :: "report \<Rightarrow> string"
  query_enhanced_llm :: "string \<Rightarrow> event list \<Rightarrow> string"

text \<open>\<^verbatim>\<open>get_latest_commit\<close>: the first event of the list sorted newest first.\<close>

definition get_latest_commit :: "services \<Rightarrow> event list \<Rightarrow> py_error + string" where
  "get_latest_commit sv events =
     (if events = [] then Inr ''No commits found.''
      else case py_sorted_desc timestamp_key events of
             [] \<Rightarrow> Inl (IndexError ''list index out of range'')
           | latest # _ \<Rightarrow> Inr (render sv (DetailedCommitAnalysis latest events)))"

definition get_recent_changes :: "services \<Rightarrow> event list \<Rightarrow> int \<Rightarrow> py_error + string" where
  "get_recent_changes sv events limit =
     (if events = [] then Inr ''No recent changes found.''
      else Inr (render sv (RecentChanges (py_slice_to limit (py_sorted_desc timestamp_key events)))))"

definition generate_enhanced_repository_summary ::
  "services \<Rightarrow> event list \<Rightarrow> string \<Rightarrow> py_error + string" where
  "generate_enhanced_repository_summary sv events query =
     (if events = [] then Inr ''No repository data available for summary.''
      else Inr (render sv (RepositorySummary events query)))"

text \<open>
  \<^verbatim>\<open>list_all_commits\<close>: how many commits the listing shows is read from the query
  (\<^verbatim>\<open>extract_number_from_query\<close>) while the report is laid out.
\<close>

definition list_all_commits :: "services \<Rightarrow> event list \<Rightarrow> string \<Rightarrow> py_error + string" where
  "list_all_commits sv events query =
     (if events = [] then Inr ''No commits found.''
      else Inr (render sv (CommitList events query)))"

text \<open>
  \<^verbatim>\<open>analyze_specific_commit\<close>: with a hash in the query, the first event whose
  \<^verbatim>\<open>commit_hash\<close> starts with it; without one, the first event.
\<close>

definition find_target_commit :: "event list \<Rightarrow> string \<Rightarrow> event option" where
  "find_target_commit events query =
     (let h = extract_commit_hash query
      in if h \<noteq> [] then find (\<lambda>e. startswith (dict_get (commit_hash e) []) h) events
         else (case events of [] \<Rightarrow> None | e # _ \<Rightarrow> Some e))"

definition analyze_specific_commit :: "services \<Rightarrow> event list \<Rightarrow> string \<Rightarrow> py_error + string" where
  "analyze_specific_commit sv events query =
     (case find_target_commit events query of
        None \<Rightarrow> Inr ''Could not find the specified commit.''
      | Some target_commit \<Rightarrow>
          if \<not> dict_nonempty target_commit then Inr ''Could not find the specified commit.''
          else Inr (render sv (DetailedCommitAnalysis target_commit events)))"

definition handle_general_commit_query ::
  "services \<Rightarrow> event list \<Rightarrow> string \<Rightarrow> py_error + string" where
  "handle_general_commit_query sv events query =
     (if any_in [''commit'', ''show commit'', ''what commit'', ''tell me about commit'']
           (py_lower query)
      then get_latest_commit sv events
      else analyze_specific_commit sv events query)"

definition generate_detailed_timeline :: "services \<Rightarrow> event list \<Rightarrow> string \<Rightarrow> py_error + string" where
  "generate_detailed_timeline sv events query =
     (if events = [] then Inr ''No timeline data available.''
      else Inr (render sv (Timeline (py_sorted_desc timestamp_key events))))"

definition analyze_author_activity :: "services \<Rightarrow> event list \<Rightarrow> string \<Rightarrow> py_error + string" where
  "analyze_author_activity sv events query =
     (if events = [] then Inr ''No author data available.''
      else Inr (render sv (AuthorActivity events)))"

definition generate_fallback_response :: "services \<Rightarrow> string \<Rightarrow> event list \<Rightarrow> py_error + string" where
  "generate_fallback_response sv query events =
     (if events = [] then Inr ''No relevant events found.''
      else Inr (render sv (FallbackListing events)))"

text \<open>
  The module defines \<^verbatim>\<open>compare_commits\<close> twice: \<^verbatim>\<open>compare_commits(events, query)\<close>
  and, further down, the endpoint \<^verbatim>\<open>compare_commits(request)\<close>, which is the one the name
  is bound to when a request is served. The call with two arguments raises \<^verbatim>\<open>TypeError\<close>.
\<close>

definition compare_commits :: "event list \<Rightarrow> string \<Rightarrow> py_error + string" where
  "compare_commits events query =
     Inl (TypeError ''compare_commits() takes 1 positional argument but 2 were given'')"

text \<open>\<^verbatim>\<open>generate_intelligent_answer\<close>: the dispatch on the query type.\<close>

definition generate_intelligent_answer ::
  "services \<Rightarrow> string \<Rightarrow> event list \<Rightarrow> py_error + string" where
  "generate_intelligent_answer sv query events =
     (if events = [] then Inr ''No relevant events found.''
      else
        (let query_lower = py_lower query;
             query_type = classify_query_type query_lower
         in if query_type = ''latest_commit'' then get_latest_commit sv events
            else if query_type = ''recent_changes'' then get_recent_changes sv events 5
            else if query_type = ''repository_summary''
              then generate_enhanced_repository_summary sv events query
            else if query_type = ''list_commits''
              then list_all_commits sv events query
            else if query_type = ''specific_commit'' then analyze_specific_commit sv events query
            else if query_type = ''general_commit_query''
              then handle_general_commit_query sv events query
            else if query_type = ''commit_comparison'' then compare_commits events query
            else if query_type = ''timeline'' then generate_detailed_timeline sv events query
            else if query_type = ''author_analysis'' then analyze_author_activity sv events query
            else
              (let llm_response = query_enhanced_llm sv query events
               in if llm_response \<noteq> [] then Inr llm_response
                  else generate_fallback_response sv query events)))"

section \<open>Confidence\<close>

text \<open>
  \<^verbatim>\<open>calculate_confidence\<close> adds decimal fractions; the model adds them as rational
  numbers. The sources enter by their number only.
\<close>

definition calculate_confidence :: "string \<Rightarrow> string \<Rightarrow> 'a list \<Rightarrow> rat" where
  "calculate_confidence query answer sources =
     (let confidence = 5 / 10;
          confidence =
            (if sources \<noteq> [] then confidence + min (3 / 10) (of_nat (length sources) * (5 / 100))
             else confidence);
          confidence = (if 100 < length answer then confidence + 1 / 10 else confidence);
          confidence =
            (if py_in ''I found'' answer \<or> py_in ''Based on'' answer then confidence + 1 / 10
             else confidence)
      in min (95 / 100) confidence)"

section \<open>The query endpoint\<close>

record query_request =
  req_query :: string
  req_limit :: "int option"
  req_repository :: "string option"
  req_branches :: "string list option"

record source_entry =
  src_type :: string
  content :: string
  src_timestamp :: string
  src_author :: string
  commit :: string
  src_repository :: string
  src_files_changed :: "string list"
  src_primary_branch :: "string option"
  src_all_branches :: "string list"
  src_merge_commit :: bool
  src_branch_context :: "string option"
  src_context :: "nat \<times> nat"

record query_response =
  answer :: string
  sources :: "source_entry list"
  confidence :: rat

text \<open>\<^verbatim>\<open>xs[:n]\<close> where \<open>n\<close> may be \<^verbatim>\<open>None\<close>, which keeps the whole list.\<close>

definition py_slice_to_opt :: "int option \<Rightarrow> 'a list \<Rightarrow> 'a list" where
  "py_slice_to_opt n xs = (case n of None \<Rightarrow> xs | Some k \<Rightarrow> py_slice_to k xs)"

text \<open>
  One entry of \<^verbatim>\<open>formatted_sources\<close>; \<open>src_context\<close> holds the two numbers of the
  text \<^verbatim>\<open>"Commit {i+1} of {len(similar_events)}"\<close>.
\<close>

definition format_source :: "nat \<Rightarrow> nat \<Rightarrow> event \<Rightarrow> source_entry" where
  "format_source n_events i e =
     \<lparr> src_type = dict_get (event_type e) ''git_commit'',
       content = dict_get (message e) [],
       src_timestamp = dict_get (timestamp e) [],
       src_author = dict_get (author e) [],
       commit = (if dict_get (commit_hash e) [] \<noteq> [] then take 8 (dict_get (commit_hash e) [])
                 else []),
       src_repository = dict_get (repository e) ''unknown'',
       src_files_changed = take 5 (dict_get (files_changed e) []),
       src_primary_branch = primary_branch e,
       src_all_branches = dict_get (all_branches e) [],
       src_merge_commit = dict_get (merge_commit e) False,
       src_branch_context = branch_context e,
       src_context = (i + 1, n_events) \<rparr>"

definition format_sources :: "int option \<Rightarrow> event list \<Rightarrow> source_entry list" where
  "format_sources limit similar_events =
     map (\<lambda>(i, e). format_source (length similar_events) i e)
       (enumerate 0 (py_slice_to_opt limit similar_events))"

definition temporal_keywords :: "string list" where
  "temporal_keywords =
     [''latest'', ''recent'', ''newest'', ''last'', ''most recent'', ''show the latest'']"

text \<open>\<^verbatim>\<open>request.limit * 2\<close>; the limit may be \<^verbatim>\<open>None\<close>, and the product then raises.\<close>

definition limit_times_2 :: "int option \<Rightarrow> py_error + int" where
  "limit_times_2 l =
     (case l of
        None \<Rightarrow> Inl (TypeError ''unsupported operand type(s) for *: NoneType and int'')
      | Some n \<Rightarrow> Inr (n * 2))"

text \<open>The events \<^verbatim>\<open>query_context\<close> retrieves, before it builds the answer.\<close>

definition retrieve :: "server \<Rightarrow> query_request \<Rightarrow> py_error + event list" where
  "retrieve st request =
     (let query = req_query request;
          repo = req_repository request;
          branches = req_branches request;
          is_temporal_query = any_in temporal_keywords (py_lower query);
          branch_filter =
            (case branches of
               None \<Rightarrow> None
             | Some bs \<Rightarrow>
                 if bs = [] then None
                 else Some (map (\<lambda>branch. \<lparr>cond_key = ''primary_branch'', match_val = branch\<rparr>) bs
                            @ map (\<lambda>branch. \<lparr>cond_key = ''all_branches'', match_val = branch\<rparr>) bs))
      in if is_temporal_query \<or> branch_filter \<noteq> None then
           (case limit_times_2 (req_limit request) of
              Inl err \<Rightarrow> Inl err
            | Inr l \<Rightarrow>
                search_similar_with_temporal_priority st query l repo is_temporal_query
                  branch_filter)
         else if py_in ''summar'' (py_lower query) then
           Inr (search_similar st query 50 repo None False)
         else
           (case limit_times_2 (req_limit request) of
              Inl err \<Rightarrow> Inl err
            | Inr l \<Rightarrow> Inr (search_similar st query l repo None False)))"

text \<open>
  \<^verbatim>\<open>query_context\<close>, the handler of \<^verbatim>\<open>POST /api/query\<close>: every exception of its body
  becomes \<^verbatim>\<open>HTTPException(status_code=500)\<close>.
\<close>

definition query_context :: "services \<Rightarrow> server \<Rightarrow> query_request \<Rightarrow> http_error + query_response" where
  "query_context sv st request =
     (case retrieve st request of
        Inl err \<Rightarrow> Inl (HTTPException 500 err)
      | Inr similar_events \<Rightarrow>
          (case generate_intelligent_answer sv (req_query request) similar_events of
             Inl err \<Rightarrow> Inl (HTTPException 500 err)
           | Inr ans \<Rightarrow>
               (let formatted_sources = format_sources (req_limit request) similar_events
                in Inr \<lparr> answer = ans,
                         sources = formatted_sources,
                         confidence =
                           calculate_confidence (req_query request) ans formatted_sources \<rparr>)))"

section \<open>The confidence score as the specification words it\<close>

text \<open>
  Base 0.5; 0.05 for every source, up to 0.3; 0.1 for an answer longer than 100
  characters; 0.1 for an answer that holds "I found" or "Based on"; at most 0.95.
\<close>

definition confidence_spec :: "nat \<Rightarrow> string \<Rightarrow> rat" where
  "confidence_spec n_sources ans =
     min (95 / 100)
       (5 / 10
        + (if 0 < n_sources then min (3 / 10) (5 / 100 * of_nat n_sources) else 0)
        + (if 100 < length ans then 1 / 10 else 0)
        + (if py_in ''I found'' ans \<or> py_in ''Based on'' ans then 1 / 10 else 0))"

section \<open>Hexadecimal tokens\<close>

text \<open>
  The specification speaks of a hexadecimal token of 6 to 40 characters. The tokens of a
  string are its maximal runs of word characters; a hexadecimal token is one of 6 to 40
  characters, all of them hexadecimal digits.
\<close>

function word_tokens :: "string \<Rightarrow> string list" where
  "word_tokens [] = []"
| "word_tokens (c # s) =
     (if is_word_char c
      then (c # takeWhile is_word_char s) # word_tokens (dropWhile is_word_char s)
      else word_tokens s)"
  by pat_completeness auto
termination
  by (relation "measure length") (auto simp: length_dropWhile_le less_Suc_eq_le)

definition is_hex_token :: "string \<Rightarrow> bool" where
  "is_hex_token t = (6 \<le> length t \<and> length t \<le> 40 \<and> list_all is_hex_char t)"

definition hex_tokens :: "string \<Rightarrow> string list" where
  "hex_tokens s = filter is_hex_token (word_tokens s)"

text \<open>
  For the proofs: whether the character before position \<open>i\<close> is a word character,
  and what is left of the string at \<open>i\<close> once the token that runs into \<open>i\<close> is
  dropped.
\<close>

definition prev_word :: "string \<Rightarrow> nat \<Rightarrow> bool" where
  "prev_word s i = (0 < i \<and> i \<le> length s \<and> is_word_char (s ! (i - 1)))"

definition rest_after :: "string \<Rightarrow> nat \<Rightarrow> string" where
  "rest_after s i = (if prev_word s i then dropWhile is_word_char (drop i s) else drop i s)"

text \<open>The string contains a hexadecimal token.\<close>

definition has_hex_token :: "string \<Rightarrow> bool" where
  "has_hex_token s = list_ex is_hex_token (word_tokens s)"

section \<open>The classifier as an ordered rule list\<close>

text \<open>
  The specification's reading of the classifier: a list of rules, each a predicate on the
  query and an intent, tried in order; the first rule whose predicate holds gives the
  intent, and \<open>general\<close> is the answer when none holds.
\<close>

fun first_match :: "((string \<Rightarrow> bool) \<times> string) list \<Rightarrow> string \<Rightarrow> string \<Rightarrow> string" where
  "first_match [] dflt q = dflt"
| "first_match ((p, tag) # rules) dflt q = (if p q then tag else first_match rules dflt q)"

text \<open>The query mentions "commit" and an action word.\<close>

definition commit_and_action :: "string \<Rightarrow> bool" where
  "commit_and_action q =
     (any_in [''commit''] q \<and> any_in [''show'', ''explain'', ''what'', ''analyze'', ''details''] q)"

definition intent_rules :: "((string \<Rightarrow> bool) \<times> string) list" where
  "intent_rules =
     [(any_in [''latest commit'', ''most recent commit'', ''last commit'', ''newest commit'',
               ''recent commit'', ''show the latest''], ''latest_commit''),
      (any_in [''summarize'', ''summary'', ''overview'', ''describe repo'', ''tell me about'',
               ''what is this repo''], ''repository_summary''),
      (any_in [''show all commits'', ''list commits'', ''all the commits'', ''every commit'',
               ''commit list''], ''list_commits''),
      (\<lambda>q. commit_and_action q \<and> has_hex_token q, ''specific_commit''),
      (\<lambda>q. commit_and_action q \<and> \<not> has_hex_token q, ''general_commit_query''),
      (any_in [''recent changes'', ''what changed recently'', ''latest changes''],
       ''recent_changes''),
      (any_in [''compare'', ''difference'', ''changed from'', ''vs'', ''versus''],
       ''commit_comparison''),
      (any_in [''timeline'', ''history'', ''chronological'', ''when'', ''evolution''],
       ''timeline''),
      (any_in [''who'', ''author'', ''contributor'', ''developer''], ''author_analysis'')]"

section \<open>A scenario\<close>

text \<open>
  Three commits with the hashes \<^verbatim>\<open>aaa111\<close>, \<^verbatim>\<open>bbb222\<close> and \<^verbatim>\<open>ccc333\<close>, in the order of
  their timestamps, of the repository \<^verbatim>\<open>/work/app\<close>; and a server that holds them in
  memory, with no vector index.
\<close>

definition mk_commit :: "string \<Rightarrow> string \<Rightarrow> string \<Rightarrow> string \<Rightarrow> event" where
  "mk_commit h repo ts msg =
     \<lparr> commit_hash = Some h, repository = Some repo, message = Some msg,
       author = Some ''Ada <ada@example.org>'', timestamp = Some ts,
       files_changed = Some [''app/main.py''], primary_branch = Some ''main'',
       all_branches = Some [''main''], merge_commit = Some False,
       event_type = Some ''git_commit'', branch_context = None \<rparr>"

definition commit_a :: event where
  "commit_a = mk_commit ''aaa111'' ''/work/app'' ''2024-01-01T10:00:00'' ''add parser''"

definition commit_b :: event where
  "commit_b = mk_commit ''bbb222'' ''/work/app'' ''2024-01-02T10:00:00'' ''fix parser''"

definition commit_c :: event where
  "commit_c = mk_commit ''ccc333'' ''/work/app'' ''2024-01-03T10:00:00'' ''document parser''"

text \<open>A layout that prints the hash of the commit a detailed report is about.\<close>

definition plain_services :: services where
  "plain_services =
     \<lparr> render = (\<lambda>r. case r of
                       DetailedCommitAnalysis c _ \<Rightarrow>
                         ''Commit Analysis: '' @ take 8 (dict_get (commit_hash c) ''unknown'')
                     | _ \<Rightarrow> ''report''),
       query_enhanced_llm = (\<lambda>_ _. []) \<rparr>"

definition memory_server :: "event list \<Rightarrow> server" where
  "memory_server evs =
     \<lparr> git_events = evs, qdrant_client = None, embedding_model = False,
       indexed_repositories = Map.empty \<rparr>"




text \<open>A commit of another repository, whose path begins with \<^verbatim>\<open>/work/app\<close>.\<close>

definition commit_other :: event where
  "commit_other = mk_commit ''fff666'' ''/work/app2'' ''2024-01-06T10:00:00'' ''other project''"

text \<open>
  A server with the embedding model and an index that holds the given events, ranks them
  in their stored order for every query, and answers a search with the first \<open>limit\<close>
  of them.
\<close>

definition index_server :: "event list \<Rightarrow> bool \<Rightarrow> server" where
  "index_server evs fails =
     \<lparr> git_events = evs,
       qdrant_client = Some \<lparr> points = evs, failing = fails,
                              nearest = (\<lambda>_ _ limit. py_slice_to limit evs) \<rparr>,
       embedding_model = True,
       indexed_repositories = Map.empty \<rparr>"

section \<open>What a temporal query sorts\<close>

text \<open>The branch filter \<^verbatim>\<open>query_context\<close> builds from the branches of a request.\<close>

definition request_branch_filter :: "query_request \<Rightarrow> condition list option" where
  "request_branch_filter request =
     (case req_branches request of
        None \<Rightarrow> None
      | Some bs \<Rightarrow>
          if bs = [] then None
          else Some (map (\<lambda>branch. \<lparr>cond_key = ''primary_branch'', match_val = branch\<rparr>) bs
                     @ map (\<lambda>branch. \<lparr>cond_key = ''all_branches'', match_val = branch\<rparr>) bs))"

text \<open>
  The events of \<^verbatim>\<open>git_events\<close> that the in-memory branch of
  \<open>search_similar_with_temporal_priority\<close> keeps for a request, before it sorts them.
\<close>

definition memory_candidates :: "server \<Rightarrow> query_request \<Rightarrow> event list" where
  "memory_candidates st request =
     apply_branch_filter (request_branch_filter request)
       (if truthy (req_repository request)
        then filter (\<lambda>e. py_in (dict_get (req_repository request) [])
                            (dict_get (repository e) [])) (git_events st)
        else git_events st)"

text \<open>
  What a temporal query sorts: the events kept in memory without the index, the hits of
  the similarity search with it.
\<close>

definition temporal_candidates :: "server \<Rightarrow> query_request \<Rightarrow> int \<Rightarrow> event list" where
  "temporal_candidates st request n =
     (if qdrant_client st = None \<or> \<not> embedding_model st then memory_candidates st request
      else apply_branch_filter (request_branch_filter request)
             (search_similar st (req_query request) (n * 2 * 2) (req_repository request) None False))"

section \<open>The scope of a query as the specification words it\<close>





section \<open>The longest common prefix\<close>

text \<open>The number of leading characters two strings share.\<close>

fun common_prefix_len :: "string \<Rightarrow> string \<Rightarrow> nat" where
  "common_prefix_len (a # s) (b # t) = (if a = b then Suc (common_prefix_len s t) else 0)"
| "common_prefix_len s t = 0"

section \<open>Ingestion\<close>

text \<open>
  \<^verbatim>\<open>check_commit_exists\<close> asks the index for one point whose payload has the commit hash.
  Without the index, for an empty hash and when the index raises, the answer is
  \<^verbatim>\<open>False\<close>.
\<close>

definition check_commit_exists :: "server \<Rightarrow> string \<Rightarrow> bool" where
  "check_commit_exists st h =
     (case qdrant_client st of
        None \<Rightarrow> False
      | Some ix \<Rightarrow>
          if h = [] then False
          else if failing ix then False
          else 0 < length (take 1 (filter (\<lambda>p. commit_hash p = Some h) (points ix))))"

text \<open>
  \<^verbatim>\<open>store_in_qdrant\<close> adds the event to the index as a new point; it does nothing without
  the index or the embedding model, and an exception of the index is caught.
\<close>

definition store_in_qdrant :: "server \<Rightarrow> event \<Rightarrow> server" where
  "store_in_qdrant st ev =
     (case qdrant_client st of
        None \<Rightarrow> st
      | Some ix \<Rightarrow>
          if \<not> embedding_model st then st
          else if failing ix then st
          else st\<lparr>qdrant_client := Some (ix\<lparr>points := points ix @ [ev]\<rparr>)\<rparr>)"

datatype ingest_result = Duplicate string | Ingested string string

text \<open>
  \<^verbatim>\<open>ingest_git_event\<close>, the handler of \<^verbatim>\<open>POST /api/ingest/git\<close>. Its result is the
  response (the status \<^verbatim>\<open>duplicate\<close> with the commit's prefix, or \<^verbatim>\<open>success\<close> with the
  prefix and the repository) and the server's state after the request, the background
  task \<^verbatim>\<open>store_in_qdrant\<close> included: the model runs it before the next request. The path
  normalisation (it resolves the path in the file system) and the clock are the
  parameters \<open>normalize_repo_path\<close> and \<open>now\<close>.
\<close>

definition ingest_git_event ::
  "(string \<Rightarrow> string) \<Rightarrow> string \<Rightarrow> server \<Rightarrow> event \<Rightarrow> ingest_result \<times> server" where
  "ingest_git_event normalize_repo_path now st ev =
     (let h = dict_get (commit_hash ev) [];
          repo = dict_get (repository ev) ''unknown'';
          repo' = (if repo \<noteq> ''unknown'' then normalize_repo_path repo else repo);
          ev = (if repo \<noteq> ''unknown'' then ev\<lparr>repository := Some repo'\<rparr> else ev);
          repos = indexed_repositories st;
          repos =
            (if repo' \<noteq> ''unknown'' \<and> repos repo' = None
             then repos(repo' \<mapsto> \<lparr> path = repo', first_indexed = now, last_updated = now,
                                   commit_count = 0, selected = True \<rparr>)
             else repos);
          repos =
            (case repos repo' of
               None \<Rightarrow> repos
             | Some entry \<Rightarrow>
                 repos(repo' \<mapsto> entry\<lparr>last_updated := now,
                                        commit_count := commit_count entry + 1\<rparr>));
          st = st\<lparr>indexed_repositories := repos\<rparr>
      in if h \<noteq> [] \<and> check_commit_exists st h then (Duplicate (take 8 h), st)
         else
           (let ev = ev\<lparr>timestamp := Some (dict_get (timestamp ev) now),
                        event_type := Some ''git_commit'',
                        repository := Some repo'\<rparr>;
                st = st\<lparr>git_events := git_events st @ [ev]\<rparr>;
                st = store_in_qdrant st ev
            in (Ingested (take 8 h) repo', st)))"


section \<open>Matches of the hash pattern\<close>

lemma find_SomeD: "find P xs = Some x \<Longrightarrow> x \<in> set xs \<and> P x"
  by (induction xs) (auto split: if_splits)

lemma hex_match_at_len: "hex_match_at s i = Some n \<Longrightarrow> 6 \<le> n \<and> n \<le> 40"
proof -
  assume "hex_match_at s i = Some n"
  then have "n \<in> set (rev [6..<41])"
    unfolding hex_match_at_def by (rule find_SomeD [THEN conjunct1])
  then have "n \<in> {6..<41}" by (simp only: set_rev set_upt)
  then show ?thesis by simp
qed

section \<open>Substrings\<close>

lemma startswith_iff: "startswith s p = (\<exists>v. s = p @ v)"
  by (induction s p rule: startswith.induct) auto

lemma py_in_iff: "py_in p s = (\<exists>u v. s = u @ p @ v)"
proof (induction s)
  case Nil
  then show ?case by auto
next
  case (Cons c s)
  have "(\<exists>u v. c # s = u @ p @ v) = ((\<exists>v. c # s = p @ v) \<or> (\<exists>u v. s = u @ p @ v))"
  proof
    assume "\<exists>u v. c # s = u @ p @ v"
    then obtain u v where uv: "c # s = u @ p @ v" by blast
    show "(\<exists>v. c # s = p @ v) \<or> (\<exists>u v. s = u @ p @ v)"
    proof (cases u)
      case Nil
      with uv show ?thesis by auto
    next
      case (Cons a u')
      with uv have "s = u' @ p @ v" by simp
      then show ?thesis by blast
    qed
  next
    assume "(\<exists>v. c # s = p @ v) \<or> (\<exists>u v. s = u @ p @ v)"
    then show "\<exists>u v. c # s = u @ p @ v"
    proof
      assume "\<exists>v. c # s = p @ v"
      then obtain v where "c # s = [] @ p @ v" by auto
      then show ?thesis by blast
    next
      assume "\<exists>u v. s = u @ p @ v"
      then obtain u v where "c # s = (c # u) @ p @ v" by auto
      then show ?thesis by blast
    qed
  qed
  with Cons show ?case by (simp add: startswith_iff)
qed

lemma py_in_suffix: "py_in (a @ b) s \<Longrightarrow> py_in b s"
  unfolding py_in_iff
proof -
  assume "\<exists>u v. s = u @ (a @ b) @ v"
  then obtain u v where "s = (u @ a) @ b @ v" by auto
  then show "\<exists>u v. s = u @ b @ v" by blast
qed

text \<open>
  The sixth keyword of \<open>temporal_keywords\<close>, "show the latest", holds the first,
  "latest": the list decides what its first five keywords decide.
\<close>

lemma temporal_keywords_five:
  "any_in temporal_keywords s
   = any_in [''latest'', ''recent'', ''newest'', ''last'', ''most recent''] s"
proof -
  have "py_in ''show the latest'' s \<Longrightarrow> py_in ''latest'' s"
    using py_in_suffix [of "''show the ''" "''latest''" s] by simp
  then show ?thesis
    unfolding any_in_def temporal_keywords_def by (simp del: py_in.simps) blast
qed

section \<open>The matches of the hash pattern, from left to right\<close>

lemma hex_search_iff: "hex_search s = (\<exists>i\<le>length s. hex_match_at s i \<noteq> None)"
  by (auto simp: hex_search_def list_ex_iff less_Suc_eq_le simp del: upt_Suc)


lemma hex_findall_from_Cons:
  "hex_findall_from s k = m # ms \<Longrightarrow>
     \<exists>i n. k \<le> i \<and> i \<le> length s \<and> hex_match_at s i = Some n \<and> m = take n (drop i s)
           \<and> (\<forall>j. k \<le> j \<and> j < i \<longrightarrow> hex_match_at s j = None)"
proof (induction s k rule: hex_findall_from.induct)
  case (1 s i)
  show ?case
  proof (cases "length s < i")
    case True
    with "1.prems" show ?thesis by (simp add: hex_findall_from.simps [of s i])
  next
    case le: False
    show ?thesis
    proof (cases "hex_match_at s i")
      case None
      with le "1.prems" have "hex_findall_from s (Suc i) = m # ms"
        by (simp add: hex_findall_from.simps [of s i])
      from "1.IH"(1) [OF le None this]
      obtain i' n where h: "Suc i \<le> i'" "i' \<le> length s" "hex_match_at s i' = Some n"
        "m = take n (drop i' s)" "\<forall>j. Suc i \<le> j \<and> j < i' \<longrightarrow> hex_match_at s j = None"
        by blast
      have "\<forall>j. i \<le> j \<and> j < i' \<longrightarrow> hex_match_at s j = None"
      proof (intro allI impI)
        fix j assume "i \<le> j \<and> j < i'"
        then show "hex_match_at s j = None"
          using h(5) None by (cases "j = i") auto
      qed
      with h show ?thesis
        by (rule_tac x = i' in exI, rule_tac x = n in exI) simp
    next
      case (Some n)
      with le "1.prems" have "m = take n (drop i s)"
        by (simp add: hex_findall_from.simps [of s i])
      with Some le show ?thesis
        by (rule_tac x = i in exI, rule_tac x = n in exI) auto
    qed
  qed
qed

lemma hex_findall_from_Nil:
  "hex_findall_from s k = [] \<Longrightarrow> k \<le> i \<Longrightarrow> i \<le> length s \<Longrightarrow> hex_match_at s i = None"
proof (induction s k rule: hex_findall_from.induct)
  case (1 s k)
  from "1.prems" have le: "\<not> length s < k" by simp
  show ?case
  proof (cases "hex_match_at s k")
    case None
    with le "1.prems" have nil: "hex_findall_from s (Suc k) = []"
      by (simp add: hex_findall_from.simps [of s k])
    show ?thesis
    proof (cases "i = k")
      case True
      with None show ?thesis by simp
    next
      case False
      with "1.prems" have "Suc k \<le> i" by simp
      from "1.IH"(1) [OF le None nil this "1.prems"(3)] show ?thesis .
    qed
  next
    case (Some n)
    with le "1.prems" show ?thesis by (simp add: hex_findall_from.simps [of s k])
  qed
qed

lemma hex_search_findall: "hex_search s = (hex_findall s \<noteq> [])"
proof
  assume "hex_search s"
  then obtain i where "i \<le> length s" "hex_match_at s i \<noteq> None"
    by (auto simp: hex_search_iff)
  then show "hex_findall s \<noteq> []"
    using hex_findall_from_Nil [of s 0 i] by (auto simp: hex_findall_def)
next
  assume "hex_findall s \<noteq> []"
  then obtain m ms where "hex_findall_from s 0 = m # ms"
    by (cases "hex_findall s") (auto simp: hex_findall_def)
  from hex_findall_from_Cons [OF this] show "hex_search s"
    by (auto simp: hex_search_iff)
qed

lemma hex_match_atD:
  "hex_match_at s i = Some n \<Longrightarrow>
     i + n \<le> length s \<and> list_all is_hex_char (take n (drop i s))
     \<and> word_boundary s i \<and> word_boundary s (i + n)"
  unfolding hex_match_at_def by (drule find_SomeD) simp

section \<open>The hash pattern finds the hexadecimal tokens\<close>

lemma hex_is_word: "is_hex_char c \<Longrightarrow> is_word_char c"
proof -
  define n :: nat where "n = of_char c"
  assume "is_hex_char c"
  then have "(48 \<le> n \<and> n \<le> 57) \<or> (65 \<le> n \<and> n \<le> 70) \<or> (97 \<le> n \<and> n \<le> 102)"
    by (simp add: is_hex_char_def Let_def n_def)
  then have "(48 \<le> n \<and> n \<le> 57) \<or> (65 \<le> n \<and> n \<le> 90) \<or> (97 \<le> n \<and> n \<le> 122)"
    by auto
  then show ?thesis unfolding is_word_char_def Let_def n_def by blast
qed

lemma find_rev_upt:
  "a \<le> x \<Longrightarrow> x < b \<Longrightarrow> P x \<Longrightarrow> (\<And>y. x < y \<Longrightarrow> y < b \<Longrightarrow> \<not> P y) \<Longrightarrow>
     find P (rev [a..<b]) = Some x"
proof (induction b)
  case 0
  then show ?case by simp
next
  case (Suc b)
  show ?case
  proof (cases "x = b")
    case True
    with Suc.prems show ?thesis by simp
  next
    case False
    with Suc.prems have "x < b" by simp
    moreover have "\<not> P b" using Suc.prems(4) [of b] \<open>x < b\<close> by simp
    ultimately show ?thesis using Suc by simp
  qed
qed

lemma find_rev_upt_None:
  "(\<And>y. a \<le> y \<Longrightarrow> y < b \<Longrightarrow> \<not> P y) \<Longrightarrow> find P (rev [a..<b]) = None"
  by (simp add: find_None_iff)


lemma word_boundary_alt:
  "word_boundary s i = (prev_word s i \<noteq> (i < length s \<and> is_word_char (s ! i)))"
  by (simp add: word_boundary_def prev_word_def)

lemma takeWhile_exact:
  "(\<forall>x\<in>set xs. P x) \<Longrightarrow> ys = [] \<or> \<not> P (hd ys) \<Longrightarrow>
     takeWhile P (xs @ ys) = xs \<and> dropWhile P (xs @ ys) = ys"
  by (cases ys) (auto simp: takeWhile_append2 dropWhile_append2)

lemma word_tokens_step:
  "xs \<noteq> [] \<Longrightarrow> is_word_char (hd xs) \<Longrightarrow>
     word_tokens xs = takeWhile is_word_char xs # word_tokens (dropWhile is_word_char xs)"
  by (cases xs) auto

lemma word_tokens_skip:
  "xs \<noteq> [] \<Longrightarrow> \<not> is_word_char (hd xs) \<Longrightarrow> word_tokens xs = word_tokens (tl xs)"
  by (cases xs) auto

lemma list_all_take_nth:
  assumes "list_all P (take n xs)" and "k < n" and "k < length xs"
  shows "P (xs ! k)"
proof -
  from assms(2,3) have "k < length (take n xs)" by simp
  then have "take n xs ! k \<in> set (take n xs)" by (rule nth_mem)
  with assms(1) have "P (take n xs ! k)" by (simp add: list_all_iff)
  with assms(2) show ?thesis by simp
qed

lemma match_is_token:
  assumes "hex_match_at s i = Some n"
  shows "\<not> prev_word s i \<and> i < length s \<and> is_word_char (s ! i)
         \<and> takeWhile is_word_char (drop i s) = take n (drop i s)
         \<and> dropWhile is_word_char (drop i s) = drop (i + n) s
         \<and> is_hex_token (take n (drop i s))
         \<and> prev_word s (i + n)
         \<and> dropWhile is_word_char (drop (i + n) s) = drop (i + n) s"
proof -
  from hex_match_at_len [OF assms] have n: "6 \<le> n" "n \<le> 40" by simp_all
  from hex_match_atD [OF assms] have
    le: "i + n \<le> length s" and hx: "list_all is_hex_char (take n (drop i s))"
    and b1: "word_boundary s i" and b2: "word_boundary s (i + n)"
    by simp_all
  from le n have i: "i < length s" by simp
  have nth_hex: "is_hex_char (s ! (i + k))" if "k < n" for k
  proof -
    from that le have "k < length (drop i s)" by simp
    from list_all_take_nth [OF hx that this] le show ?thesis by simp
  qed
  from nth_hex [of 0] n have w0: "is_word_char (s ! i)" by (simp add: hex_is_word)
  from b1 i w0 have np: "\<not> prev_word s i" by (simp add: word_boundary_alt)
  from nth_hex [of "n - 1"] n have "is_word_char (s ! (i + n - 1))" by (simp add: hex_is_word)
  with le n have pw: "prev_word s (i + n)" by (simp add: prev_word_def)
  with b2 have nn: "\<not> (i + n < length s \<and> is_word_char (s ! (i + n)))"
    by (simp add: word_boundary_alt)
  have "drop n (drop i s) = drop (i + n) s" by (simp only: drop_drop add.commute)
  then have split: "drop i s = take n (drop i s) @ drop (i + n) s"
    by (metis append_take_drop_id)
  have allw: "\<forall>x\<in>set (take n (drop i s)). is_word_char x"
    using hx by (auto simp: list_all_iff hex_is_word)
  have stop: "drop (i + n) s = [] \<or> \<not> is_word_char (hd (drop (i + n) s))"
    using nn by (cases "i + n < length s") (simp_all add: hd_drop_conv_nth)
  from takeWhile_exact [OF allw stop] split
  have tw: "takeWhile is_word_char (drop i s) = take n (drop i s)"
    and dw: "dropWhile is_word_char (drop i s) = drop (i + n) s"
    by simp_all
  have tok: "is_hex_token (take n (drop i s))"
    using hx n le by (simp add: is_hex_token_def)
  have dw2: "dropWhile is_word_char (drop (i + n) s) = drop (i + n) s"
    using stop by (cases "drop (i + n) s") auto
  from np i w0 tw dw tok pw dw2 show ?thesis by simp
qed


lemma token_is_match:
  assumes np: "\<not> prev_word s i" and i: "i < length s" and w: "is_word_char (s ! i)"
    and tok: "is_hex_token (takeWhile is_word_char (drop i s))"
  shows "hex_match_at s i = Some (length (takeWhile is_word_char (drop i s)))"
proof -
  define xs where "xs = drop i s"
  define t where "t = takeWhile is_word_char xs"
  define m where "m = length t"
  have lx: "length xs = length s - i" by (simp add: xs_def)
  have mle: "m \<le> length xs" unfolding m_def t_def by (rule length_takeWhile_le)
  from tok have m: "6 \<le> m" "m \<le> 40" and hx: "list_all is_hex_char t"
    by (simp_all add: is_hex_token_def m_def t_def xs_def)
  have tk: "take m xs = t" unfolding m_def t_def by (rule takeWhile_eq_take [symmetric])
  have nth_xs: "xs ! k = s ! (i + k)" if "k < length xs" for k
    using that by (simp add: xs_def)
  have last_word: "is_word_char (s ! (i + m - 1))"
  proof -
    from m mle have k: "m - 1 < length t" "m - 1 < length xs" by (simp_all add: m_def)
    from k(1) have "t ! (m - 1) \<in> set t" by simp
    then have "is_word_char (t ! (m - 1))"
      using set_takeWhileD [of "t ! (m - 1)" is_word_char xs] by (simp add: t_def)
    moreover have "t ! (m - 1) = xs ! (m - 1)"
      using k(1) unfolding t_def by (simp add: takeWhile_nth)
    moreover from m have "i + (m - 1) = i + m - 1" by simp
    ultimately show ?thesis using nth_xs [OF k(2)] by simp
  qed
  have stop: "\<not> is_word_char (s ! (i + m))" if "i + m < length s"
  proof -
    from that lx have lt: "m < length xs" by simp
    then have "\<not> is_word_char (xs ! m)"
      unfolding m_def t_def by (rule nth_length_takeWhile)
    with nth_xs [OF lt] show ?thesis by simp
  qed
  let ?P = "\<lambda>n. i + n \<le> length s \<and> list_all is_hex_char (take n (drop i s))
                  \<and> word_boundary s i \<and> word_boundary s (i + n)"
  have b1: "word_boundary s i" using np i w by (simp add: word_boundary_alt)
  have pw: "prev_word s (i + m)"
    using last_word m mle lx i by (simp add: prev_word_def)
  have b2: "word_boundary s (i + m)"
    using pw stop by (auto simp: word_boundary_alt)
  have Pm: "?P m"
    using mle lx i hx tk b1 b2 by (simp add: xs_def)
  have notP: "\<not> ?P y" if "m < y" for y
  proof
    assume P: "?P y"
    then have ly: "i + y \<le> length s" and hy: "list_all is_hex_char (take y (drop i s))"
      by simp_all
    from ly that have lt: "i + m < length s" by simp
    from lt have "m < length (drop i s)" by simp
    from list_all_take_nth [OF hy that this] lt have "is_hex_char (s ! (i + m))" by simp
    then have "is_word_char (s ! (i + m))" by (rule hex_is_word)
    with stop [OF lt] show False by simp
  qed
  have "find ?P (rev [6..<41]) = Some m"
  proof (rule find_rev_upt)
    show "6 \<le> m" by (rule m(1))
    show "m < 41" using m(2) by simp
    show "?P m" by (rule Pm)
    show "\<not> ?P y" if "m < y" "y < 41" for y by (rule notP [OF that(1)])
  qed
  then show ?thesis by (simp only: hex_match_at_def m_def t_def xs_def)
qed

lemma hex_tokens_step:
  "xs \<noteq> [] \<Longrightarrow> is_word_char (hd xs) \<Longrightarrow>
     hex_tokens xs = (if is_hex_token (takeWhile is_word_char xs)
                      then [takeWhile is_word_char xs] else [])
                     @ hex_tokens (dropWhile is_word_char xs)"
  by (simp add: hex_tokens_def word_tokens_step)

lemma hex_tokens_skip:
  "xs \<noteq> [] \<Longrightarrow> \<not> is_word_char (hd xs) \<Longrightarrow> hex_tokens xs = hex_tokens (tl xs)"
  by (simp add: hex_tokens_def word_tokens_skip)

lemma hex_findall_from_tokens: "hex_findall_from s i = hex_tokens (rest_after s i)"
proof (induction s i rule: hex_findall_from.induct)
  case (1 s i)
  show ?case
  proof (cases "length s < i")
    case True
    then have "rest_after s i = []" by (simp add: rest_after_def prev_word_def)
    with True show ?thesis by (simp add: hex_findall_from.simps [of s i] hex_tokens_def)
  next
    case le: False
    show ?thesis
    proof (cases "hex_match_at s i")
      case None
      with le have eq: "hex_findall_from s i = hex_tokens (rest_after s (Suc i))"
        using "1.IH"(1) [OF le None] by (simp add: hex_findall_from.simps [of s i])
      have "hex_tokens (rest_after s (Suc i)) = hex_tokens (rest_after s i)"
      proof (cases "i = length s")
        case True
        then show ?thesis by (simp add: rest_after_def prev_word_def)
      next
        case False
        with le have i: "i < length s" by simp
        then have d: "drop i s = s ! i # drop (Suc i) s" by (simp add: Cons_nth_drop_Suc)
        from i have ps: "prev_word s (Suc i) = is_word_char (s ! i)"
          by (simp add: prev_word_def)
        show ?thesis
        proof (cases "is_word_char (s ! i)")
          case w: True
          show ?thesis
          proof (cases "prev_word s i")
            case True
            with w ps d show ?thesis by (simp add: rest_after_def)
          next
            case np: False
            have "\<not> is_hex_token (takeWhile is_word_char (drop i s))"
            proof
              assume "is_hex_token (takeWhile is_word_char (drop i s))"
              from token_is_match [OF np i w this] None show False by simp
            qed
            with np w ps d show ?thesis
              using hex_tokens_step [of "drop i s"] by (simp add: rest_after_def)
          qed
        next
          case nw: False
          have "hex_tokens (drop i s) = hex_tokens (drop (Suc i) s)"
            using hex_tokens_skip [of "drop i s"] nw d by simp
          with nw ps d show ?thesis by (simp add: rest_after_def)
        qed
      qed
      with eq show ?thesis by simp
    next
      case (Some n)
      from match_is_token [OF Some] have
        np: "\<not> prev_word s i" and i: "i < length s" and w: "is_word_char (s ! i)"
        and tw: "takeWhile is_word_char (drop i s) = take n (drop i s)"
        and dw: "dropWhile is_word_char (drop i s) = drop (i + n) s"
        and tok: "is_hex_token (take n (drop i s))"
        and pw: "prev_word s (i + n)"
        and dw2: "dropWhile is_word_char (drop (i + n) s) = drop (i + n) s"
        by simp_all
      from le Some have "hex_findall_from s i = take n (drop i s) # hex_tokens (rest_after s (i + n))"
        using "1.IH"(2) [OF le Some] by (simp add: hex_findall_from.simps [of s i])
      also have "rest_after s (i + n) = drop (i + n) s"
        using pw dw2 by (simp add: rest_after_def)
      finally have l: "hex_findall_from s i = take n (drop i s) # hex_tokens (drop (i + n) s)" .
      from i have d: "drop i s \<noteq> []" "hd (drop i s) = s ! i"
        by (simp_all add: hd_drop_conv_nth)
      from hex_tokens_step [of "drop i s"] d w tw dw tok
      have "hex_tokens (drop i s) = take n (drop i s) # hex_tokens (drop (i + n) s)" by simp
      with l np show ?thesis by (simp add: rest_after_def)
    qed
  qed
qed

lemma hex_findall_tokens: "hex_findall s = hex_tokens s"
  by (simp add: hex_findall_def hex_findall_from_tokens rest_after_def prev_word_def)

text \<open>
  The pattern matches somewhere in a string exactly when the string has a hexadecimal
  token, and the first match is the first such token.
\<close>

lemma hex_search_tokens: "hex_search s = has_hex_token s"
  by (simp add: hex_search_findall hex_findall_tokens has_hex_token_def hex_tokens_def
      list_ex_iff filter_empty_conv)

lemma extract_commit_hash_tokens:
  "extract_commit_hash query = (case hex_tokens query of [] \<Rightarrow> [] | m # _ \<Rightarrow> m)"
  by (simp add: extract_commit_hash_def hex_findall_tokens)

section \<open>The confidence score\<close>

lemma calculate_confidence_eq:
  "calculate_confidence query ans srcs = confidence_spec (length srcs) ans"
  by (simp add: calculate_confidence_def confidence_spec_def Let_def mult.commute)

lemma confidence_spec_bounds:
  "5 / 10 \<le> confidence_spec n ans \<and> confidence_spec n ans \<le> 95 / 100"
proof -
  define s :: rat where "s = (if 0 < n then min (3 / 10) (5 / 100 * of_nat n) else 0)"
  define l :: rat where "l = (if 100 < length ans then 1 / 10 else 0)"
  define p :: rat where
    "p = (if py_in ''I found'' ans \<or> py_in ''Based on'' ans then 1 / 10 else 0)"
  have "0 \<le> s" "0 \<le> l" "0 \<le> p" by (simp_all add: s_def l_def p_def)
  moreover have "confidence_spec n ans = min (95 / 100) (5 / 10 + s + l + p)"
    by (simp only: confidence_spec_def s_def l_def p_def)
  ultimately show ?thesis by (simp add: min_def)
qed

text \<open>
  Claim C8. For every query, answer and list of sources, the score that
  \<open>calculate_confidence\<close> computes step by step is the specification's formula
  \<open>confidence_spec\<close>: 0.5, plus the smaller of 0.3 and 0.05 times the number of sources
  when there is a source, plus 0.1 for an answer of more than 100 characters, plus 0.1
  for an answer holding "I found" or "Based on", capped at 0.95. The score lies between
  0.5 and 0.95.
\<close>

theorem calculate_confidence_formula:
  "calculate_confidence query ans srcs = confidence_spec (length srcs) ans
   \<and> 5 / 10 \<le> calculate_confidence query ans srcs
   \<and> calculate_confidence query ans srcs \<le> 95 / 100"
  using confidence_spec_bounds [of "length srcs" ans]
  by (simp only: calculate_confidence_eq)

section \<open>The classifier\<close>

lemma first_match_wins:
  "list_all (\<lambda>r. \<not> fst r q) pre \<Longrightarrow> p q \<Longrightarrow> first_match (pre @ (p, t) # post) dflt q = t"
  by (induction pre) auto

lemma first_match_default:
  "list_all (\<lambda>r. \<not> fst r q) rules \<Longrightarrow> first_match rules dflt q = dflt"
  by (induction rules) auto

lemma classify_query_type_eq: "classify_query_type q = first_match intent_rules ''general'' q"
  by (simp add: classify_query_type_def intent_rules_def commit_and_action_def
      hex_search_tokens)

text \<open>
  Claim C6. \<open>classify_query_type\<close> is a function of the query string alone, and it
  evaluates the ordered rule list \<open>intent_rules\<close> (latest_commit, repository_summary,
  list_commits, specific_commit when the query mentions "commit" and an action word and
  contains a hexadecimal token of 6 to 40 characters, general_commit_query when it
  mentions them and has no such token, recent_changes, commit_comparison, timeline,
  author_analysis): the first rule that matches decides, whatever the later rules say,
  and the answer is general when no rule matches. The code looks for the token with the
  pattern \<^verbatim>\<open>\b[a-fA-F0-9]{6,40}\b\<close>; the rule list asks for a maximal run of word
  characters that has 6 to 40 characters, all hexadecimal digits.
\<close>

theorem classify_query_type_first_match:
  "classify_query_type q = first_match intent_rules ''general'' q
   \<and> (\<forall>pre p t post. intent_rules = pre @ (p, t) # post \<and> list_all (\<lambda>r. \<not> fst r q) pre \<and> p q
        \<longrightarrow> classify_query_type q = t)
   \<and> (list_all (\<lambda>r. \<not> fst r q) intent_rules \<longrightarrow> classify_query_type q = ''general'')"
proof -
  have "classify_query_type q = t"
    if "intent_rules = pre @ (p, t) # post" "list_all (\<lambda>r. \<not> fst r q) pre" "p q"
    for pre p t post
    using that first_match_wins [of q pre p t post "''general''"]
    by (simp add: classify_query_type_eq)
  then show ?thesis
    by (auto simp: classify_query_type_eq first_match_default)
qed

theorem classify_query_type_first_match_witness:
  "classify_query_type ''explain the latest commit of abcdef12'' = ''latest_commit''
   \<and> classify_query_type ''nothing to see'' = ''general''"
proof -
  let ?q = "''explain the latest commit of abcdef12''"
  let ?p = "any_in [''latest commit'', ''most recent commit'', ''last commit'', ''newest commit'',
               ''recent commit'', ''show the latest'']"
  have "intent_rules = [] @ (?p, ''latest_commit'') # tl intent_rules"
    by (simp add: intent_rules_def)
  moreover have "?p ?q" by code_simp
  ultimately have a: "classify_query_type ?q = ''latest_commit''"
    using classify_query_type_first_match [of ?q] by (metis list.pred_inject(1))
  have "list_all (\<lambda>r. \<not> fst r ''nothing to see'') intent_rules" by code_simp
  then have b: "classify_query_type ''nothing to see'' = ''general''"
    using classify_query_type_first_match [of "''nothing to see''"] by blast
  from a b show ?thesis by simp
qed

section \<open>Answers for an empty commit list\<close>

text \<open>
  Claim C10. Whatever the query, and so whatever its intent, \<open>generate_intelligent_answer\<close>
  with an empty commit list returns the text "No relevant events found." and raises
  nothing; and every formatter it dispatches to that takes the reports' layout answers
  an empty list with a fixed text of its own ("No commits found.", "No recent changes
  found.", ...), again without raising.
\<close>

theorem empty_commit_list_no_data:
  "generate_intelligent_answer sv query [] = Inr ''No relevant events found.''
   \<and> get_latest_commit sv [] = Inr ''No commits found.''
   \<and> get_recent_changes sv [] n = Inr ''No recent changes found.''
   \<and> generate_enhanced_repository_summary sv [] query
       = Inr ''No repository data available for summary.''
   \<and> list_all_commits sv [] query = Inr ''No commits found.''
   \<and> analyze_specific_commit sv [] query = Inr ''Could not find the specified commit.''
   \<and> handle_general_commit_query sv [] query
       = (if any_in [''commit'', ''show commit'', ''what commit'', ''tell me about commit'']
               (py_lower query)
          then Inr ''No commits found.'' else Inr ''Could not find the specified commit.'')
   \<and> generate_detailed_timeline sv [] query = Inr ''No timeline data available.''
   \<and> analyze_author_activity sv [] query = Inr ''No author data available.''
   \<and> generate_fallback_response sv query [] = Inr ''No relevant events found.''"
  by (simp add: generate_intelligent_answer_def get_latest_commit_def get_recent_changes_def
      generate_enhanced_repository_summary_def list_all_commits_def analyze_specific_commit_def
      find_target_commit_def handle_general_commit_query_def generate_detailed_timeline_def
      analyze_author_activity_def generate_fallback_response_def Let_def)

section \<open>Branch filters without a temporal keyword\<close>




section \<open>Temporal queries\<close>


lemma py_slice_to_Nil [simp]: "py_slice_to k [] = []"
  by (simp add: py_slice_to_def)

lemma set_py_sorted_desc [simp]: "set (py_sorted_desc k xs) = set xs"
  by (simp add: py_sorted_desc_def)

lemma py_sorted_desc_Nil [simp]: "py_sorted_desc k [] = []"
  by (simp add: py_sorted_desc_def)






lemma length_format_sources:
  "length (format_sources cap evs) = length (py_slice_to_opt cap evs)"
  by (simp add: format_sources_def)


lemma retrieve_temporal:
  assumes "any_in temporal_keywords (py_lower (req_query request))" and "req_limit request = Some n"
  shows "retrieve st request
           = Inr (py_slice_to (n * 2) (py_sorted_desc timestamp_key (temporal_candidates st request n)))"
  using assms
  by (simp add: retrieve_def search_similar_with_temporal_priority_def temporal_candidates_def
      memory_candidates_def request_branch_filter_def limit_times_2_def Let_def)









section \<open>An index that raises\<close>

lemma search_similar_failing:
  "qdrant_client st = Some ix \<Longrightarrow> failing ix \<Longrightarrow> embedding_model st \<Longrightarrow>
     search_similar st q l repo bf tp = []"
  by (simp add: search_similar_def Let_def)

lemma apply_branch_filter_Nil [simp]: "apply_branch_filter bf [] = []"
  by (simp add: apply_branch_filter_def split: option.splits)

lemma no_data_confidence:
  "calculate_confidence q ''No relevant events found.'' ([] :: source_entry list) = 1 / 2"
  by (simp add: calculate_confidence_def Let_def)

text \<open>
  What the code does when the index raises: \<open>search_similar\<close> catches the error and
  returns the empty list, and a request with a limit that holds a temporal keyword or
  names no branch is answered with "No relevant events found.", no sources and the
  confidence 0.5.
\<close>

lemma index_error_gives_empty_answer:
  assumes "qdrant_client st = Some ix" and "failing ix" and "embedding_model st"
    and "req_limit request = Some n"
    and "any_in [''latest'', ''recent'', ''newest'', ''last'', ''most recent'']
           (py_lower (req_query request))
         \<or> req_branches request = None \<or> req_branches request = Some []"
  shows "search_similar st q l repo bf tp = []
         \<and> query_context sv st request
             = Inr \<lparr> answer = ''No relevant events found.'', sources = [], confidence = 1 / 2 \<rparr>"
proof -
  note ss = search_similar_failing [OF assms(1,2,3)]
  have ret: "retrieve st request = Inr []"
  proof (cases "any_in temporal_keywords (py_lower (req_query request))")
    case True
    have "temporal_candidates st request n = []"
      using assms(1,3) by (simp add: temporal_candidates_def ss)
    with retrieve_temporal [OF True assms(4), of st] show ?thesis by simp
  next
    case False
    with assms(5) have "req_branches request = None \<or> req_branches request = Some []"
      by (simp only: temporal_keywords_five) blast
    with False assms(4) show ?thesis
      by (auto simp: retrieve_def Let_def limit_times_2_def ss)
  qed
  have "format_sources (Some n) [] = []"
    by (simp add: format_sources_def py_slice_to_opt_def)
  with ret assms(4) show ?thesis
    by (simp add: ss query_context_def generate_intelligent_answer_def no_data_confidence)
qed

text \<open>
  Claim C4 at a failing input. With three commits in memory and an index that raises,
  the response is not an error, but it has no sources: \<open>search_similar\<close> returns the
  empty list from its \<^verbatim>\<open>except\<close> clause and does not scan \<open>git_events\<close>, the store the
  module keeps as a backup. The in-memory scan of the same request, which the same
  function runs when there is no index, gives the three commits.
\<close>

theorem index_error_returns_no_sources:
  "(case query_context plain_services (index_server [commit_a, commit_b, commit_c] True)
           \<lparr> req_query = ''parser work'', req_limit = Some 10, req_repository = None,
             req_branches = None \<rparr>
    of Inl _ \<Rightarrow> False | Inr r \<Rightarrow> sources r = [])
   \<and> (case query_context plain_services (memory_server [commit_a, commit_b, commit_c])
           \<lparr> req_query = ''parser work'', req_limit = Some 10, req_repository = None,
             req_branches = None \<rparr>
      of Inl _ \<Rightarrow> False | Inr r \<Rightarrow> map commit (sources r) = [''aaa111'', ''bbb222'', ''ccc333''])"
  by code_simp

section \<open>Duplicates and the repository filter on the in-memory paths\<close>

text \<open>
  What the sibling branches do: the branch of \<open>search_similar\<close> that asks the index
  returns every commit hash once, and its in-memory branch returns events of the
  requested repository only.
\<close>

lemma unique_events_hashes:
  "distinct (map (\<lambda>e. dict_get (commit_hash e) []) (unique_events seen es))
   \<and> set (map (\<lambda>e. dict_get (commit_hash e) []) (unique_events seen es)) \<inter> seen = {}"
  by (induction es arbitrary: seen) (auto simp: Let_def)

lemma search_similar_index_distinct:
  "qdrant_client st = Some ix \<Longrightarrow> embedding_model st \<Longrightarrow>
     distinct (map (\<lambda>e. dict_get (commit_hash e) [])
                (search_similar st query limit repo branch_filter temporal_priority))"
  using unique_events_hashes [of "{}"] by (simp add: search_similar_def Let_def)

lemma set_py_slice_to: "set (py_slice_to n xs) \<subseteq> set xs"
  by (auto simp: py_slice_to_def dest: in_set_takeD)

lemma set_apply_branch_filter: "set (apply_branch_filter bf xs) \<subseteq> set xs"
  by (auto simp: apply_branch_filter_def split: option.splits)

lemma search_similar_memory_repository:
  assumes "qdrant_client st = None \<or> \<not> embedding_model st" and "truthy repo"
    and "e \<in> set (search_similar st query limit repo branch_filter temporal_priority)"
  shows "repository e = repo"
proof -
  define kept where
    "kept = apply_branch_filter branch_filter (filter (\<lambda>e. repository e = repo) (git_events st))"
  define ordered where
    "ordered = (if temporal_priority then py_sorted_desc timestamp_key kept else kept)"
  have "search_similar st query limit repo branch_filter temporal_priority
          = py_slice_to limit ordered"
  proof (cases "qdrant_client st")
    case None
    with assms(2) show ?thesis
      by (simp add: search_similar_def Let_def kept_def ordered_def)
  next
    case (Some ix)
    with assms(1) have "\<not> embedding_model st" by simp
    with Some assms(2) show ?thesis
      by (simp add: search_similar_def Let_def kept_def ordered_def)
  qed
  with assms(3) have "e \<in> set (py_slice_to limit ordered)" by simp
  with set_py_slice_to [of limit ordered] have "e \<in> set ordered" by (rule subsetD)
  then have "e \<in> set kept" by (simp add: ordered_def split: if_splits)
  then have "e \<in> set (filter (\<lambda>e. repository e = repo) (git_events st))"
    unfolding kept_def using set_apply_branch_filter by (rule rev_subsetD)
  then show ?thesis by simp
qed

text \<open>
  Claim C1 at a failing input. Without the index, with the commit \<open>aaa111\<close> twice in
  \<open>git_events\<close>, the sources of a query name the commit \<open>aaa111\<close> twice: the in-memory
  branch of \<open>search_similar\<close> returns its events without the loop \<open>unique_events\<close>
  that the branch of the index runs.
\<close>

theorem memory_fallback_returns_duplicate_sources:
  "(case query_context plain_services (memory_server [commit_a, commit_a])
           \<lparr> req_query = ''parser work'', req_limit = Some 10, req_repository = None,
             req_branches = None \<rparr>
    of Inl _ \<Rightarrow> [] | Inr r \<Rightarrow> map commit (sources r)) = [''aaa111'', ''aaa111'']"
  by code_simp

text \<open>
  Claim C2 at a failing input. Without the index, a temporal query for the repository
  \<^verbatim>\<open>/work/app\<close> returns a commit of \<^verbatim>\<open>/work/app2\<close>: the in-memory branch of
  \<open>search_similar_with_temporal_priority\<close> keeps the events whose repository holds
  the filter as a substring. The same filter on a query without a temporal keyword
  (\<open>search_similar\<close>, which compares with equality) returns commits of
  \<^verbatim>\<open>/work/app\<close> only.
\<close>

theorem temporal_fallback_matches_repository_by_substring:
  "(case query_context plain_services (memory_server [commit_a, commit_other, commit_b])
           \<lparr> req_query = ''show the latest commit'', req_limit = Some 10,
             req_repository = Some ''/work/app'', req_branches = None \<rparr>
    of Inl _ \<Rightarrow> [] | Inr r \<Rightarrow> map src_repository (sources r))
     = [''/work/app2'', ''/work/app'', ''/work/app'']
   \<and> (case query_context plain_services (memory_server [commit_a, commit_other, commit_b])
           \<lparr> req_query = ''parser work'', req_limit = Some 10,
             req_repository = Some ''/work/app'', req_branches = None \<rparr>
      of Inl _ \<Rightarrow> [] | Inr r \<Rightarrow> map src_repository (sources r))
     = [''/work/app'', ''/work/app'']"
  by code_simp

section \<open>The commit a query names\<close>

lemma py_in_take_drop: "i + n \<le> length s \<Longrightarrow> py_in (take n (drop i s)) s"
proof -
  assume "i + n \<le> length s"
  have "take n (drop i s) @ drop n (drop i s) = drop i s" by (rule append_take_drop_id)
  then have "take i s @ take n (drop i s) @ drop n (drop i s) = s" by (simp only: append_take_drop_id)
  then have "s = take i s @ take n (drop i s) @ drop n (drop i s)" by (rule sym)
  then show ?thesis unfolding py_in_iff by blast
qed

lemma extract_commit_hash_leftmost:
  assumes "extract_commit_hash query \<noteq> []"
  shows "\<exists>i n. hex_match_at query i = Some n \<and> extract_commit_hash query = take n (drop i query)
           \<and> i + n \<le> length query \<and> (\<forall>j<i. hex_match_at query j = None)"
proof -
  from assms obtain m ms where f: "hex_findall_from query 0 = m # ms"
    by (cases "hex_findall query") (auto simp: extract_commit_hash_def hex_findall_def)
  then have e: "extract_commit_hash query = m"
    by (simp add: extract_commit_hash_def hex_findall_def)
  from hex_findall_from_Cons [OF f] obtain i n where
    h: "hex_match_at query i = Some n" "m = take n (drop i query)"
       "\<forall>j. 0 \<le> j \<and> j < i \<longrightarrow> hex_match_at query j = None"
    by blast
  from hex_match_atD [OF h(1)] have "i + n \<le> length query" by simp
  with h e show ?thesis by auto
qed

lemma extract_commit_hash_shape:
  assumes "extract_commit_hash query \<noteq> []"
  shows "6 \<le> length (extract_commit_hash query) \<and> length (extract_commit_hash query) \<le> 40
         \<and> list_all is_hex_char (extract_commit_hash query)
         \<and> py_in (extract_commit_hash query) query"
proof -
  from extract_commit_hash_leftmost [OF assms] obtain i n where
    h: "hex_match_at query i = Some n" "extract_commit_hash query = take n (drop i query)"
       "i + n \<le> length query"
    by blast
  from hex_match_at_len [OF h(1)] hex_match_atD [OF h(1)] h(3) py_in_take_drop [OF h(3)]
  show ?thesis by (simp add: h(2))
qed

lemma hex_search_extract: "hex_search query \<Longrightarrow> extract_commit_hash query \<noteq> []"
proof -
  assume "hex_search query"
  then obtain m ms where f: "hex_findall_from query 0 = m # ms"
    by (cases "hex_findall query") (auto simp: hex_search_findall hex_findall_def)
  from hex_findall_from_Cons [OF f] obtain i n where
    h: "hex_match_at query i = Some n" "m = take n (drop i query)" by blast
  from hex_match_at_len [OF h(1)] hex_match_atD [OF h(1)] have "m \<noteq> []"
    by (auto simp: h(2))
  with f show ?thesis by (simp add: extract_commit_hash_def hex_findall_def)
qed

lemma common_prefix_len_le: "common_prefix_len s t \<le> length t"
  by (induction s t rule: common_prefix_len.induct) auto

lemma common_prefix_len_startswith: "startswith s t \<Longrightarrow> common_prefix_len s t = length t"
  by (induction s t rule: startswith.induct) auto


lemma startswith_hash_nonempty:
  "startswith (dict_get (commit_hash c) []) tok \<Longrightarrow> tok \<noteq> [] \<Longrightarrow> dict_nonempty c"
  by (cases "commit_hash c") (auto simp: dict_get_def dict_nonempty_def neq_Nil_conv)

lemma find_member: "find P xs = Some x \<Longrightarrow> List.member xs x"
  by (induction xs) (auto split: if_splits)

text \<open>
  Claim C7, as amended. A query classified as specific_commit (the classifier reads the
  lower-cased query) is answered by \<open>analyze_specific_commit\<close>, which reads the query
  as it was typed. When that holds a hexadecimal token, \<open>extract_commit_hash\<close> gives the
  first one, which is the leftmost match of the hash pattern: 6 to 40 hexadecimal digits
  that occur in the query. The synthesizer targets the first commit of the list whose
  hash starts with this token; no commit of the list has a longer common prefix with the
  token than the target has. When no hash starts with the token the answer is "Could
  not find the specified commit." and nothing is raised. When the query as typed holds
  no token, the first commit of the list is the target. A query with the words
  "explain" and "commit" and the token \<open>bbb222\<close> resolves to the commit \<open>bbb222\<close>.
\<close>

theorem specific_commit_targets_prefix_match:
  assumes "classify_query_type (py_lower query) = ''specific_commit''"
  shows "(events \<noteq> [] \<longrightarrow>
            generate_intelligent_answer sv query events
              = analyze_specific_commit sv events query)
       \<and> (extract_commit_hash query \<noteq> [] \<longrightarrow>
            (\<exists>tok. extract_commit_hash query = tok
               \<and> 6 \<le> length tok \<and> length tok \<le> 40 \<and> list_all is_hex_char tok
               \<and> py_in tok query
               \<and> (\<exists>others. hex_tokens query = tok # others)
               \<and> (\<exists>i. tok = take (length tok) (drop i query)
                        \<and> hex_match_at query i = Some (length tok)
                        \<and> (\<forall>j<i. hex_match_at query j = None))
               \<and> (case find (\<lambda>e. startswith (dict_get (commit_hash e) []) tok) events of
                     None \<Rightarrow>
                       analyze_specific_commit sv events query
                         = Inr ''Could not find the specified commit.''
                   | Some c \<Rightarrow>
                       analyze_specific_commit sv events query
                         = Inr (render sv (DetailedCommitAnalysis c events))
                       \<and> List.member events c
                       \<and> list_all (\<lambda>e. common_prefix_len (dict_get (commit_hash e) []) tok
                                           \<le> common_prefix_len (dict_get (commit_hash c) []) tok)
                            events)))
       \<and> (extract_commit_hash query = [] \<longrightarrow>
            analyze_specific_commit sv events query
              = (case events of
                   [] \<Rightarrow> Inr ''Could not find the specified commit.''
                 | e # _ \<Rightarrow>
                     if dict_nonempty e then Inr (render sv (DetailedCommitAnalysis e events))
                     else Inr ''Could not find the specified commit.''))"
proof -
  have disp: "generate_intelligent_answer sv query events = analyze_specific_commit sv events query"
    if "events \<noteq> []"
    using that assms by (simp add: generate_intelligent_answer_def Let_def)
  have with_token: "\<exists>tok. extract_commit_hash query = tok
               \<and> 6 \<le> length tok \<and> length tok \<le> 40 \<and> list_all is_hex_char tok
               \<and> py_in tok query
               \<and> (\<exists>others. hex_tokens query = tok # others)
               \<and> (\<exists>i. tok = take (length tok) (drop i query)
                        \<and> hex_match_at query i = Some (length tok)
                        \<and> (\<forall>j<i. hex_match_at query j = None))
               \<and> (case find (\<lambda>e. startswith (dict_get (commit_hash e) []) tok) events of
                     None \<Rightarrow>
                       analyze_specific_commit sv events query
                         = Inr ''Could not find the specified commit.''
                   | Some c \<Rightarrow>
                       analyze_specific_commit sv events query
                         = Inr (render sv (DetailedCommitAnalysis c events))
                       \<and> List.member events c
                       \<and> list_all (\<lambda>e. common_prefix_len (dict_get (commit_hash e) []) tok
                                           \<le> common_prefix_len (dict_get (commit_hash c) []) tok)
                            events)"
    if nonempty: "extract_commit_hash query \<noteq> []"
  proof -
    define tok where "tok = extract_commit_hash query"
    from nonempty have ne: "tok \<noteq> []" by (simp add: tok_def)
    from extract_commit_hash_shape [OF nonempty]
    have shape: "6 \<le> length tok \<and> length tok \<le> 40 \<and> list_all is_hex_char tok \<and> py_in tok query"
      by (simp add: tok_def)
    from extract_commit_hash_leftmost [OF nonempty] obtain i n where
      h: "hex_match_at query i = Some n" "tok = take n (drop i query)" "i + n \<le> length query"
         "\<forall>j<i. hex_match_at query j = None"
      unfolding tok_def by blast
    from h(2,3) have "length tok = n" by simp
    with h have left: "\<exists>i. tok = take (length tok) (drop i query)
                      \<and> hex_match_at query i = Some (length tok)
                      \<and> (\<forall>j<i. hex_match_at query j = None)"
      by auto
    have target: "find_target_commit events query
                    = find (\<lambda>e. startswith (dict_get (commit_hash e) []) tok) events"
      using ne by (simp add: find_target_commit_def tok_def Let_def)
    have pick: "(case find (\<lambda>e. startswith (dict_get (commit_hash e) []) tok) events of
                   None \<Rightarrow>
                     analyze_specific_commit sv events query
                       = Inr ''Could not find the specified commit.''
                 | Some c \<Rightarrow>
                     analyze_specific_commit sv events query
                       = Inr (render sv (DetailedCommitAnalysis c events))
                     \<and> List.member events c
                     \<and> list_all (\<lambda>e. common_prefix_len (dict_get (commit_hash e) []) tok
                                         \<le> common_prefix_len (dict_get (commit_hash c) []) tok)
                          events)"
    proof (cases "find (\<lambda>e. startswith (dict_get (commit_hash e) []) tok) events")
      case None
      then show ?thesis by (simp add: analyze_specific_commit_def target)
    next
      case (Some c)
      from find_SomeD [OF Some] have sw: "startswith (dict_get (commit_hash c) []) tok" by simp
      from startswith_hash_nonempty [OF sw ne] have "dict_nonempty c" .
      moreover have "list_all (\<lambda>e. common_prefix_len (dict_get (commit_hash e) []) tok
                                  \<le> common_prefix_len (dict_get (commit_hash c) []) tok) events"
        by (simp add: list_all_iff common_prefix_len_startswith [OF sw] common_prefix_len_le)
      ultimately show ?thesis
        using Some find_member [OF Some]
        by (simp add: analyze_specific_commit_def target)
    qed
    have first: "\<exists>others. hex_tokens query = tok # others"
      using ne by (cases "hex_tokens query") (simp_all add: tok_def extract_commit_hash_tokens)
    have "extract_commit_hash query = tok" by (simp add: tok_def)
    with shape first left pick show ?thesis by blast
  qed
  have without_token: "analyze_specific_commit sv events query
              = (case events of
                   [] \<Rightarrow> Inr ''Could not find the specified commit.''
                 | e # _ \<Rightarrow>
                     if dict_nonempty e then Inr (render sv (DetailedCommitAnalysis e events))
                     else Inr ''Could not find the specified commit.'')"
    if "extract_commit_hash query = []"
    using that
    by (cases events) (simp_all add: analyze_specific_commit_def find_target_commit_def Let_def)
  from disp with_token without_token show ?thesis by blast
qed

theorem specific_commit_targets_prefix_match_witness:
  "classify_query_type (py_lower ''Explain commit bbb222 please'') = ''specific_commit''
   \<and> extract_commit_hash ''Explain commit bbb222 please'' = ''bbb222''
   \<and> generate_intelligent_answer plain_services ''Explain commit bbb222 please''
        [commit_a, commit_b, commit_c]
      = Inr (render plain_services (DetailedCommitAnalysis commit_b [commit_a, commit_b, commit_c]))"
proof -
  let ?q = "''Explain commit bbb222 please''"
  let ?evs = "[commit_a, commit_b, commit_c]"
  have c: "classify_query_type (py_lower ?q) = ''specific_commit''" by code_simp
  have t: "extract_commit_hash ?q = ''bbb222''" by code_simp
  have f: "find (\<lambda>e. startswith (dict_get (commit_hash e) []) ''bbb222'') ?evs = Some commit_b"
    by code_simp
  from specific_commit_targets_prefix_match [OF c, where events = ?evs and sv = plain_services] t f
  have "generate_intelligent_answer plain_services ?q ?evs
          = Inr (render plain_services (DetailedCommitAnalysis commit_b ?evs))"
    by simp
  with c t show ?thesis by simp
qed

text \<open>
  Claim C7 as stated fails for the token \<open>bbb2\<close>: it has four digits and the pattern
  asks for six. "explain commit bbb2" is a general_commit_query, no hash is extracted and
  the report is about the latest commit \<open>ccc333\<close>; "explain bbb2" is a general query and
  is answered with a listing.
\<close>

theorem short_token_counterexample:
  "classify_query_type (py_lower ''explain commit bbb2'') = ''general_commit_query''
   \<and> extract_commit_hash ''explain commit bbb2'' = []
   \<and> generate_intelligent_answer plain_services ''explain commit bbb2''
        [commit_a, commit_b, commit_c]
      = Inr (render plain_services (DetailedCommitAnalysis commit_c [commit_a, commit_b, commit_c]))
   \<and> classify_query_type (py_lower ''explain bbb2'') = ''general''
   \<and> generate_intelligent_answer plain_services ''explain bbb2'' [commit_a, commit_b, commit_c]
      = Inr (render plain_services (FallbackListing [commit_a, commit_b, commit_c]))"
  by code_simp

section \<open>Ingesting a commit twice\<close>


lemma check_commit_exists_repos [simp]:
  "check_commit_exists (st\<lparr>indexed_repositories := r\<rparr>) h = check_commit_exists st h"
  by (simp add: check_commit_exists_def)









text \<open>
  The repository's \<open>commit_count\<close> is raised before the duplicate check: a request that
  is answered as a duplicate still counts.
\<close>

lemma duplicate_ingest_still_counts:
  "fst (ingest_git_event (\<lambda>p. p) ''2024-02-02T00:00:00''
         (snd (ingest_git_event (\<lambda>p. p) ''2024-02-01T00:00:00'' (index_server [] False) commit_a))
         commit_a)
     = Duplicate ''aaa111''
   \<and> map_option commit_count
        (indexed_repositories
           (snd (ingest_git_event (\<lambda>p. p) ''2024-02-01T00:00:00'' (index_server [] False) commit_a))
           ''/work/app'')
     = Some 1
   \<and> map_option commit_count
        (indexed_repositories
           (snd (ingest_git_event (\<lambda>p. p) ''2024-02-02T00:00:00''
              (snd (ingest_git_event (\<lambda>p. p) ''2024-02-01T00:00:00'' (index_server [] False) commit_a))
              commit_a))
           ''/work/app'')
     = Some 2"
  by code_simp

end
